theory Spec2Isabelle
  imports Complex_Main "HOL-Library.Log_Nat"
begin

section \<open>The Telegram webhook handler of DRAW Bot (src/app/api/telegram/route.ts)\<close>

text \<open>
  The handler \<open>POST\<close> reads two stores: the Supabase table \<open>users\<close> (one row per
  \<open>telegram_id\<close>, with the columns \<open>points\<close> and \<open>created_at\<close>) and the in-memory
  record \<open>pendingTasks\<close>. Both are keyed by \<open>String(chatId)\<close>; the conversion is
  injective on integers, so the keys of the model are the integers themselves.
  A JavaScript \<open>number\<close> that holds an integer is modelled by \<open>int\<close>; this is exact for
  every value below \<open>2 ^ 53\<close>, which covers the targets \<open>1..5\<close> of the mini-game.
  The one product of two non-integers, \<open>Math.random() * 5\<close>, is rounded as IEEE 754
  double arithmetic rounds it.
  The store client is modelled as always answering (its \<open>error\<close> results, which the source
  only logs, are the failures of a remote service and are not part of the model), and the
  message handed to \<open>tgSendMessage\<close> is recorded as sent.
  A text is a list of code units below 256. The handler returns at once for the falsy chat
  id 0, so the statements about the commands of a user take a chat id other than 0.
\<close>

subsection \<open>Strings: \<open>trim\<close>, \<open>startsWith\<close>, \<open>includes\<close>, \<open>parseInt\<close>\<close>

text \<open>White space and line terminators of ECMAScript, among the code units below 256:
  TAB, LF, VT, FF, CR, SP and NBSP.\<close>

definition isWhiteSpace :: "char \<Rightarrow> bool" where
  "isWhiteSpace c = (of_char c \<in> {9::nat, 10, 11, 12, 13, 32, 160})"

definition trim :: "string \<Rightarrow> string" where
  "trim s = rev (dropWhile isWhiteSpace (rev (dropWhile isWhiteSpace s)))"

definition startsWith :: "string \<Rightarrow> string \<Rightarrow> bool" where
  "startsWith s p = (take (length p) s = p)"

fun includesStr :: "string \<Rightarrow> string \<Rightarrow> bool" where
  "includesStr [] p = (p = [])"
| "includesStr (c # cs) p = (startsWith (c # cs) p \<or> includesStr cs p)"

definition isDigit :: "char \<Rightarrow> bool" where
  "isDigit c = (48 \<le> (of_char c :: nat) \<and> (of_char c :: nat) \<le> 57)"

definition digitValue :: "char \<Rightarrow> nat" where
  "digitValue c = of_char c - 48"

definition digitsValue :: "string \<Rightarrow> nat" where
  "digitsValue z = foldl (\<lambda>acc c. 10 * acc + digitValue c) 0 z"

text \<open>\<open>parseInt(text, 10)\<close>: skip leading white space, read an optional sign, take the
  longest run of decimal digits, and give \<open>NaN\<close> (here \<open>None\<close>) when that run is empty.
  Whatever follows the digits is ignored.\<close>

definition parseInt10 :: "string \<Rightarrow> int option" where
  "parseInt10 s =
     (let s1 = dropWhile isWhiteSpace s;
          sign = (if s1 \<noteq> [] \<and> hd s1 = CHR ''-'' then - 1 else (1::int));
          s2 = (if s1 \<noteq> [] \<and> (hd s1 = CHR ''+'' \<or> hd s1 = CHR ''-'') then tl s1 else s1);
          z = takeWhile isDigit s2
      in if z = [] then None else Some (sign * int (digitsValue z)))"

subsection \<open>Double arithmetic\<close>

text \<open>Rounding a rational to the nearest integer, a tie going to the even one.\<close>

definition roundEven :: "rat \<Rightarrow> int" where
  "roundEven q =
     (let f = \<lfloor>q\<rfloor>; d = q - of_int f
      in if d < 1 / 2 then f else if 1 / 2 < d then f + 1 else if even f then f else f + 1)"

text \<open>A binary floating-point format with \<open>p\<close> significant bits whose smallest positive
  value is \<open>2 ^ -m\<close>: every value is a multiple of \<open>2 ^ -m\<close>. A non-negative \<open>x\<close> (below the
  overflow threshold) is rounded by counting it in units of \<open>2 ^ -m\<close>, dropping the \<open>k\<close>
  bits in excess of \<open>p\<close> (none for a subnormal), and rounding what is left to the nearest
  integer, ties to even.\<close>

definition roundToPrecision :: "nat \<Rightarrow> nat \<Rightarrow> rat \<Rightarrow> rat" where
  "roundToPrecision p m x =
     (let s = x * 2 ^ m;
          k = floorlog 2 (nat \<lfloor>s\<rfloor>) - p
      in of_int (roundEven (s / 2 ^ k)) * 2 ^ k / 2 ^ m)"

text \<open>IEEE 754 binary64, the \<open>number\<close> of JavaScript: 53 significant bits, smallest
  positive value \<open>2 ^ -1074\<close>.\<close>

definition roundToDouble :: "rat \<Rightarrow> rat" where
  "roundToDouble x = roundToPrecision 53 1074 x"

text \<open>The rationals that are doubles: rounding leaves them as they are.\<close>

definition isDouble :: "rat \<Rightarrow> bool" where
  "isDouble x = (roundToDouble x = x)"

subsection \<open>The stores\<close>

record user_row =
  points :: int
  created_at :: nat

type_synonym users_table = "int \<rightharpoonup> user_row"

datatype TaskType = video | ad | guess

record PendingTask =
  task_type :: TaskType
  task_number :: "int option"

record state =
  users :: users_table
  pendingTasks :: "int \<rightharpoonup> PendingTask"

text \<open>\<open>getUser\<close>: the row with this \<open>telegram_id\<close>, or \<open>null\<close>.\<close>

definition getUser :: "int \<Rightarrow> users_table \<Rightarrow> user_row option" where
  "getUser telegramId tbl = tbl telegramId"

text \<open>\<open>createUser\<close>: insert a row with \<open>points: 0\<close> and the current time, and return it.\<close>

definition createUser :: "nat \<Rightarrow> int \<Rightarrow> users_table \<Rightarrow> user_row option \<times> users_table" where
  "createUser now telegramId tbl =
     (let row = \<lparr>points = 0, created_at = now\<rparr>
      in (Some row, tbl(telegramId \<mapsto> row)))"

definition ensureUser :: "nat \<Rightarrow> int \<Rightarrow> users_table \<Rightarrow> user_row option \<times> users_table" where
  "ensureUser now telegramId tbl =
     (case getUser telegramId tbl of
        Some user \<Rightarrow> (Some user, tbl)
      | None \<Rightarrow> createUser now telegramId tbl)"

text \<open>\<open>user?.points ?? 0\<close>\<close>

definition pointsOrZero :: "user_row option \<Rightarrow> int" where
  "pointsOrZero user = (case user of None \<Rightarrow> 0 | Some row \<Rightarrow> points row)"

text \<open>The statement \<open>update({ points: newPts }).eq('telegram_id', ...)\<close>: it changes the rows
  that match, and a table without such a row stays as it is.\<close>

definition updateRow :: "int \<Rightarrow> int \<Rightarrow> users_table \<Rightarrow> users_table" where
  "updateRow telegramId newPts tbl =
     (case tbl telegramId of
        None \<Rightarrow> tbl
      | Some row \<Rightarrow> tbl(telegramId \<mapsto> row\<lparr>points := newPts\<rparr>))"

text \<open>\<open>updatePoints\<close> run without interruption: read the row, add, write, return the sum.\<close>

definition updatePoints :: "int \<Rightarrow> int \<Rightarrow> users_table \<Rightarrow> int \<times> users_table" where
  "updatePoints telegramId delta tbl =
     (let user = getUser telegramId tbl;
          current = pointsOrZero user;
          newPts = current + delta
      in (newPts, updateRow telegramId newPts tbl))"

subsection \<open>Requests, replies and the environment\<close>

record TelegramMessage =
  msg_text :: "string option"
  chat_id :: int

record TelegramUpdate =
  message :: "TelegramMessage option"

text \<open>A request: the header \<open>x-telegram-bot-api-secret-token\<close> (or \<open>null\<close>) and the parsed
  body; \<open>None\<close> is a body for which \<open>request.json()\<close> throws.\<close>

record request =
  secret_header :: "string option"
  body :: "TelegramUpdate option"

record env =
  TELEGRAM_WEBHOOK_SECRET :: string
  DRAWCOIN_VIDEO_URL :: "string option"
  DRAWCOIN_AD_URL :: "string option"

text \<open>\<open>process.env.X || fallback\<close>: an unset or empty variable gives the fallback.\<close>

definition orDefault :: "string option \<Rightarrow> string \<Rightarrow> string" where
  "orDefault v d = (case v of None \<Rightarrow> d | Some s \<Rightarrow> if s = [] then d else s)"

text \<open>The texts handed to \<open>tgSendMessage\<close>, one constructor per template of the source:
  \<^item> \<open>Correct total\<close>: "Correct! You earned 2 points. Total points: total."
  \<^item> \<open>WrongGuess\<close>: "Wrong guess, try again!"
  \<^item> \<open>NumberPlease\<close>: "Please reply with a number between 1 and 5."
  \<^item> \<open>Welcome pts\<close>: "Welcome to DRAW Bot! Your current points: pts" and the command list
  \<^item> \<open>YouHave pts\<close>: "You have pts points."
  \<^item> \<open>ThanksForClicking total\<close>: "Thanks for clicking! +1 point. Total points: total."
  \<^item> \<open>WatchVideo url\<close>: "Watch this video: url Send /done video when finished to claim points."
  \<^item> \<open>VisitAd url\<close>: "Visit this ad: url Send /done ad when done to claim points."
  \<^item> \<open>Earned pts total\<close>: "Thanks! You earned pts points. Total points: total."
  \<^item> \<open>NoPending t\<close>: "You have no pending t task. Use /t to start one."
  \<^item> \<open>GuessPrompt\<close>: "Guess a number between 1 and 5. Reply with your guess."
  \<^item> \<open>UnknownCommand\<close>: "Unknown command. Send /start to see available commands."\<close>

datatype reply =
    Correct int
  | WrongGuess
  | NumberPlease
  | Welcome int
  | YouHave int
  | ThanksForClicking int
  | WatchVideo string
  | VisitAd string
  | Earned int int
  | NoPending TaskType
  | GuessPrompt
  | UnknownCommand

text \<open>The HTTP answers: \<open>{ok: false, error: 'forbidden'}\<close> with status 403,
  \<open>{ok: true}\<close>, and \<open>{ok: false}\<close> with status 200 from the \<open>catch\<close> block.\<close>

datatype response = Forbidden403 | OkTrue | OkFalse200

text \<open>What one call of \<open>POST\<close> leaves behind: the HTTP answer, the message sent with
  \<open>tgSendMessage\<close> (chat and text) if any, and the stores.\<close>

type_synonym outcome = "response \<times> (int \<times> reply) option \<times> state"

subsection \<open>The handler\<close>

text \<open>Step 4 of \<open>POST\<close>, the branch \<open>pending?.type === 'guess'\<close>.\<close>

definition guessMode :: "int \<Rightarrow> string \<Rightarrow> PendingTask \<Rightarrow> state \<Rightarrow> outcome" where
  "guessMode chatId text pending st =
     (case parseInt10 text of
        Some g \<Rightarrow>
          if Some g = task_number pending then
            (let (total, tbl) = updatePoints chatId 2 (users st)
             in (OkTrue, Some (chatId, Correct total),
                 st\<lparr>users := tbl, pendingTasks := (pendingTasks st)(chatId := None)\<rparr>))
          else (OkTrue, Some (chatId, WrongGuess), st)
      | None \<Rightarrow> (OkTrue, Some (chatId, NumberPlease), st))"

text \<open>Step 5 of \<open>POST\<close>, the chain of \<open>text.startsWith\<close> tests in the order of the source.
  \<open>rnd\<close> is the value of \<open>Math.random()\<close>, whose product with 5 is rounded to a double
  before \<open>Math.floor\<close> is taken, and \<open>now\<close> the clock read by \<open>createUser\<close>.\<close>

definition commands :: "env \<Rightarrow> rat \<Rightarrow> nat \<Rightarrow> int \<Rightarrow> string \<Rightarrow> state \<Rightarrow> outcome" where
  "commands e rnd now chatId text st =
     (if startsWith text ''/start'' then
        (let (user, tbl) = ensureUser now chatId (users st)
         in (OkTrue, Some (chatId, Welcome (pointsOrZero user)), st\<lparr>users := tbl\<rparr>))
      else if startsWith text ''/points'' then
        (let (user, tbl) = ensureUser now chatId (users st)
         in (OkTrue, Some (chatId, YouHave (pointsOrZero user)), st\<lparr>users := tbl\<rparr>))
      else if startsWith text ''/click'' then
        (let (total, tbl) = updatePoints chatId 1 (users st)
         in (OkTrue, Some (chatId, ThanksForClicking total), st\<lparr>users := tbl\<rparr>))
      else if startsWith text ''/video'' then
        (OkTrue,
         Some (chatId, WatchVideo
           (orDefault (DRAWCOIN_VIDEO_URL e) ''https://www.youtube.com/watch?v=dQw4w9WgXcQ'')),
         st\<lparr>pendingTasks := (pendingTasks st)(chatId \<mapsto> \<lparr>task_type = video, task_number = None\<rparr>)\<rparr>)
      else if startsWith text ''/ad'' then
        (OkTrue,
         Some (chatId, VisitAd (orDefault (DRAWCOIN_AD_URL e) ''https://example.com/ad'')),
         st\<lparr>pendingTasks := (pendingTasks st)(chatId \<mapsto> \<lparr>task_type = ad, task_number = None\<rparr>)\<rparr>)
      else if startsWith text ''/done video'' \<or> startsWith text ''/done ad'' then
        (let doneType = (if includesStr text ''video'' then video else ad);
             current = pendingTasks st chatId
         in if map_option task_type current = Some doneType then
              (let pts = (if doneType = video then 5 else 3);
                   (total, tbl) = updatePoints chatId pts (users st)
               in (OkTrue, Some (chatId, Earned pts total),
                   st\<lparr>users := tbl, pendingTasks := (pendingTasks st)(chatId := None)\<rparr>))
            else (OkTrue, Some (chatId, NoPending doneType), st))
      else if startsWith text ''/guess'' then
        (let num = \<lfloor>roundToDouble (rnd * 5)\<rfloor> + 1
         in (OkTrue, Some (chatId, GuessPrompt),
             st\<lparr>pendingTasks := (pendingTasks st)(chatId \<mapsto> \<lparr>task_type = guess, task_number = Some num\<rparr>)\<rparr>))
      else (OkTrue, Some (chatId, UnknownCommand), st))"

text \<open>\<open>POST\<close>: the secret check, the parse of the body, the early returns for an update
  without message or with a falsy chat id, the trimmed text (\<open>message.text || ''\<close>), the
  lookup of the pending task, then guess mode or the commands.\<close>

definition POST :: "env \<Rightarrow> rat \<Rightarrow> nat \<Rightarrow> request \<Rightarrow> state \<Rightarrow> outcome" where
  "POST e rnd now req st =
     (if secret_header req \<noteq> Some (TELEGRAM_WEBHOOK_SECRET e) then (Forbidden403, None, st)
      else case body req of
        None \<Rightarrow> (OkFalse200, None, st)
      | Some update \<Rightarrow>
         (case message update of
            None \<Rightarrow> (OkTrue, None, st)
          | Some msg \<Rightarrow>
             (let chatId = chat_id msg;
                  text = trim (case msg_text msg of None \<Rightarrow> [] | Some t \<Rightarrow> t)
              in if chatId = 0 then (OkTrue, None, st)
                 else case pendingTasks st chatId of
                   Some pending \<Rightarrow>
                     if task_type pending = guess then guessMode chatId text pending st
                     else commands e rnd now chatId text st
                 | None \<Rightarrow> commands e rnd now chatId text st)))"

subsection \<open>Observations, events and runs\<close>

text \<open>The balance of a user as the handler reads it: \<open>(await getUser(id))?.points ?? 0\<close>.\<close>

definition balance :: "state \<Rightarrow> int \<Rightarrow> int" where
  "balance st telegramId = pointsOrZero (getUser telegramId (users st))"

text \<open>An update that Telegram delivers for the text \<open>t\<close> typed in chat \<open>chatId\<close>, with the
  secret token of the webhook.\<close>

definition textEvent :: "env \<Rightarrow> int \<Rightarrow> string \<Rightarrow> request" where
  "textEvent e chatId t =
     \<lparr>secret_header = Some (TELEGRAM_WEBHOOK_SECRET e),
      body = Some \<lparr>message = Some \<lparr>msg_text = Some t, chat_id = chatId\<rparr>\<rparr>\<rparr>"

text \<open>The chat a request belongs to, when it carries a message.\<close>

definition sender :: "request \<Rightarrow> int option" where
  "sender req =
     (case body req of
        None \<Rightarrow> None
      | Some update \<Rightarrow> map_option chat_id (message update))"

definition sent :: "outcome \<Rightarrow> (int \<times> reply) option" where
  "sent out = fst (snd out)"

definition after :: "outcome \<Rightarrow> state" where
  "after out = snd (snd out)"

text \<open>Requests handled one after the other; each comes with the value \<open>Math.random()\<close>
  would give and with the time of the clock.\<close>

type_synonym event = "rat \<times> nat \<times> request"

fun run :: "env \<Rightarrow> event list \<Rightarrow> state \<Rightarrow> state" where
  "run e [] st = st"
| "run e ((rnd, now, req) # evs) st = run e evs (after (POST e rnd now req st))"

text \<open>The texts \<open>ts\<close> typed one after the other in the chat \<open>chatId\<close>.\<close>

definition textEvents :: "env \<Rightarrow> int \<Rightarrow> (rat \<times> nat \<times> string) list \<Rightarrow> event list" where
  "textEvents e chatId ts = map (\<lambda>(rnd, now, t). (rnd, now, textEvent e chatId t)) ts"

definition fresh :: state where
  "fresh = \<lparr>users = Map.empty, pendingTasks = Map.empty\<rparr>"

subsection \<open>\<open>updatePoints\<close> with its two awaited store calls\<close>

text \<open>\<open>updatePoints\<close> awaits the store twice: the \<open>select\<close> of \<open>getUser\<close> and the \<open>update\<close>.
  Other handlers run between the two. A call is therefore in one of three places: called
  with its arguments, holding \<open>newPts\<close> after the read, or returned.\<close>

datatype call = Called int int | Fetched int int | Returned int

fun callStep :: "call \<Rightarrow> users_table \<Rightarrow> call \<times> users_table" where
  "callStep (Called telegramId delta) tbl =
     (Fetched telegramId (pointsOrZero (getUser telegramId tbl) + delta), tbl)"
| "callStep (Fetched telegramId newPts) tbl = (Returned newPts, updateRow telegramId newPts tbl)"
| "callStep (Returned newPts) tbl = (Returned newPts, tbl)"

text \<open>A schedule names, step by step, the call that makes its next store access.\<close>

fun schedule :: "nat list \<Rightarrow> call list \<times> users_table \<Rightarrow> call list \<times> users_table" where
  "schedule [] cfg = cfg"
| "schedule (i # js) (calls, tbl) =
     (if i < length calls
      then (let (c, tbl') = callStep (calls ! i) tbl in schedule js (calls[i := c], tbl'))
      else schedule js (calls, tbl))"

subsection \<open>The parser contract of the specification\<close>

text \<open>The specification's "valid base-10 integer": an optional sign, then one or more
  decimal digits, and nothing else.\<close>

definition spec_valid_integer :: "string \<Rightarrow> bool" where
  "spec_valid_integer s =
     (let d = (if s \<noteq> [] \<and> (hd s = CHR ''+'' \<or> hd s = CHR ''-'') then tl s else s)
      in d \<noteq> [] \<and> list_all isDigit d)"

subsection \<open>Sample values\<close>

abbreviation sampleEnv :: env where
  "sampleEnv \<equiv>
     \<lparr>TELEGRAM_WEBHOOK_SECRET = ''s'', DRAWCOIN_VIDEO_URL = None, DRAWCOIN_AD_URL = None\<rparr>"

abbreviation guessing :: "int \<Rightarrow> PendingTask" where
  "guessing r \<equiv> \<lparr>task_type = guess, task_number = Some r\<rparr>"

abbreviation waiting :: "TaskType \<Rightarrow> PendingTask" where
  "waiting k \<equiv> \<lparr>task_type = k, task_number = None\<rparr>"

abbreviation row :: "int \<Rightarrow> user_row" where
  "row p \<equiv> \<lparr>points = p, created_at = 0\<rparr>"

text \<open>The double nearest to 0.6.\<close>

abbreviation sixTenths :: rat where
  "sixTenths \<equiv> 5404319552844595 / 9007199254740992"

section \<open>Basic facts\<close>

lemma POST_textEvent:
  "chatId \<noteq> 0 \<Longrightarrow>
   POST e rnd now (textEvent e chatId t) st =
     (case pendingTasks st chatId of
        Some pending \<Rightarrow>
          if task_type pending = guess then guessMode chatId (trim t) pending st
          else commands e rnd now chatId (trim t) st
      | None \<Rightarrow> commands e rnd now chatId (trim t) st)"
  by (simp add: POST_def textEvent_def Let_def)

lemma startsWith_Cons:
  "startsWith s (c # p) \<longleftrightarrow> (s \<noteq> [] \<and> hd s = c \<and> startsWith (tl s) p)"
  by (cases s) (auto simp: startsWith_def)

lemma startsWith_Nil [simp]: "startsWith s []"
  by (simp add: startsWith_def)

lemma parseInt10_slash:
  "s \<noteq> [] \<Longrightarrow> hd s = CHR ''/'' \<Longrightarrow> parseInt10 s = None"
  by (cases s) (simp_all add: parseInt10_def isWhiteSpace_def isDigit_def Let_def)

lemma parseInt10_no_digit:
  assumes "\<forall>c \<in> set s. \<not> isDigit c"
  shows "parseInt10 s = None"
proof -
  define s1 where "s1 = dropWhile isWhiteSpace s"
  define s2 where
    "s2 = (if s1 \<noteq> [] \<and> (hd s1 = CHR ''+'' \<or> hd s1 = CHR ''-'') then tl s1 else s1)"
  have "set s1 \<subseteq> set s"
    unfolding s1_def by (auto dest: set_dropWhileD)
  moreover have "set s2 \<subseteq> set s1"
    unfolding s2_def by (auto dest: list.set_sel(2))
  ultimately have "\<forall>c \<in> set s2. \<not> isDigit c"
    using assms by blast
  then have "takeWhile isDigit s2 = []"
    by (cases s2) auto
  moreover have "parseInt10 s =
      (if takeWhile isDigit s2 = [] then None
       else Some ((if s1 \<noteq> [] \<and> hd s1 = CHR ''-'' then - 1 else 1)
                   * int (digitsValue (takeWhile isDigit s2))))"
    by (simp only: parseInt10_def Let_def s1_def s2_def)
  ultimately show ?thesis
    by simp
qed

lemma set_trim: "set (trim s) \<subseteq> set s"
  by (auto simp: trim_def dest!: set_dropWhileD)

lemma guess_pending_dispatch:
  assumes "chatId \<noteq> 0" and "pendingTasks st chatId = Some pending"
    and "task_type pending = guess"
  shows "POST e rnd now (textEvent e chatId t) st = guessMode chatId (trim t) pending st"
  using assms by (simp add: POST_textEvent)

lemma no_guess_dispatch:
  assumes "chatId \<noteq> 0" and "map_option task_type (pendingTasks st chatId) \<noteq> Some guess"
  shows "POST e rnd now (textEvent e chatId t) st = commands e rnd now chatId (trim t) st"
  using assms by (auto simp: POST_textEvent split: option.splits)

lemma commands_guess:
  assumes "startsWith text ''/guess''"
  shows "commands e rnd now chatId text st =
           (OkTrue, Some (chatId, GuessPrompt),
            st\<lparr>pendingTasks :=
                 (pendingTasks st)(chatId \<mapsto> guessing (\<lfloor>roundToDouble (rnd * 5)\<rfloor> + 1))\<rparr>)"
  using assms by (auto simp: commands_def startsWith_Cons Let_def)

section \<open>Rounding to a double\<close>

lemma roundEven_upper: "of_int (roundEven q) \<le> q + 1 / 2"
  unfolding roundEven_def Let_def by (auto; linarith)

lemma roundEven_lower: "q - 1 / 2 \<le> of_int (roundEven q)"
  unfolding roundEven_def Let_def by (auto; linarith)

lemma roundEven_nonneg: "0 \<le> q \<Longrightarrow> 0 \<le> roundEven q"
  unfolding roundEven_def Let_def by auto

lemma roundEven_of_int [simp]: "roundEven (of_int n) = n"
  unfolding roundEven_def Let_def by simp

lemma floorlog_floor_le:
  fixes s :: rat
  assumes "s < 2 ^ w"
  shows "floorlog 2 (nat \<lfloor>s\<rfloor>) \<le> w"
proof -
  have "\<lfloor>s\<rfloor> < 2 ^ w"
    using assms by (simp add: floor_less_iff)
  then have "nat \<lfloor>s\<rfloor> < 2 ^ w"
    by (simp add: nat_less_iff)
  then show ?thesis
    by (intro floorlog_leI) simp_all
qed

lemma floorlog_floor_ge:
  fixes s :: rat
  assumes "2 ^ (w - 1) \<le> s"
  shows "w \<le> floorlog 2 (nat \<lfloor>s\<rfloor>)"
proof -
  have "(2::int) ^ (w - 1) \<le> \<lfloor>s\<rfloor>"
    using assms by (simp add: le_floor_iff)
  then have "(2::nat) ^ (w - 1) \<le> nat \<lfloor>s\<rfloor>"
    by (simp add: le_nat_iff)
  then show ?thesis
    by (intro floorlog_geI) simp_all
qed

lemma roundToPrecision_nonneg:
  assumes "0 \<le> x"
  shows "0 \<le> roundToPrecision p m x"
  using assms by (simp add: roundToPrecision_def Let_def roundEven_nonneg)

lemma roundToPrecision_normal:
  assumes "j \<le> m" and "0 < p" and "2 ^ (p - 1) \<le> x * 2 ^ j" and "x * 2 ^ j < 2 ^ p"
  shows "roundToPrecision p m x = of_int (roundEven (x * 2 ^ j)) / 2 ^ j"
proof -
  define s where "s = x * 2 ^ m"
  have s: "s = (x * 2 ^ j) * 2 ^ (m - j)"
    using assms(1) by (simp add: s_def flip: power_add)
  have "s < 2 ^ p * 2 ^ (m - j)"
    unfolding s using assms(4) by simp
  then have "s < 2 ^ (p + (m - j))"
    by (simp add: power_add)
  then have le: "floorlog 2 (nat \<lfloor>s\<rfloor>) \<le> p + (m - j)"
    by (rule floorlog_floor_le)
  have "2 ^ (p - 1) * 2 ^ (m - j) \<le> s"
    unfolding s using assms(3) by simp
  then have "2 ^ (p + (m - j) - 1) \<le> s"
    using assms(2) by (simp flip: power_add)
  then have "p + (m - j) \<le> floorlog 2 (nat \<lfloor>s\<rfloor>)"
    by (rule floorlog_floor_ge)
  with le have k: "floorlog 2 (nat \<lfloor>s\<rfloor>) - p = m - j"
    by simp
  have q: "s / 2 ^ (m - j) = x * 2 ^ j"
    by (simp add: s)
  have "(2::rat) ^ (m - j) / 2 ^ m = 1 / 2 ^ j"
    using assms(1) by (simp add: power_diff field_simps flip: power_add)
  then have "of_int (roundEven (x * 2 ^ j)) * (2::rat) ^ (m - j) / 2 ^ m
      = of_int (roundEven (x * 2 ^ j)) / 2 ^ j"
    by (metis times_divide_eq_right mult.right_neutral)
  then show ?thesis
    by (simp add: roundToPrecision_def Let_def k q flip: s_def)
qed

lemma roundToPrecision_below_five:
  assumes "3 \<le> p" and "p \<le> m" and "0 \<le> x" and "x \<le> 5 - 5 / 2 ^ p"
  shows "roundToPrecision p m x < 5"
proof -
  define s where "s = x * 2 ^ m"
  define k where "k = floorlog 2 (nat \<lfloor>s\<rfloor>) - p"
  define P :: rat where "P = 2 ^ (m - k)"
  have "x < 8"
  proof -
    have "(0::rat) < 5 / 2 ^ p" by simp
    with assms(4) show ?thesis by linarith
  qed
  then have "s < 8 * 2 ^ m"
    by (simp add: s_def)
  also have "\<dots> = (2::rat) ^ (m + 3)"
    by (simp add: power_add)
  finally have "floorlog 2 (nat \<lfloor>s\<rfloor>) \<le> m + 3"
    by (rule floorlog_floor_le)
  then have k: "k \<le> m + 3 - p"
    by (simp add: k_def)
  with assms(1,2) have km: "k \<le> m" and pk: "p - 3 \<le> m - k"
    by simp_all
  have Ppos: "0 < P"
    by (simp add: P_def)
  have q: "s / 2 ^ k = x * P"
    using km by (simp add: s_def P_def power_diff)
  have r: "(2::rat) ^ k / 2 ^ m = 1 / P"
    using km by (simp add: P_def power_diff)
  have "(2::rat) ^ (p - 3) \<le> P"
    unfolding P_def using pk by (intro power_increasing) simp_all
  moreover have "(2::rat) ^ p = 8 * 2 ^ (p - 3)"
  proof -
    have "(2::rat) ^ p = 2 ^ (3 + (p - 3))"
      using assms(1) by simp
    also have "\<dots> = 2 ^ 3 * 2 ^ (p - 3)"
      by (rule power_add)
    finally show ?thesis
      by simp
  qed
  ultimately have P8: "2 ^ p \<le> 8 * P"
    by simp
  define t where "t = P / 2 ^ p"
  have "1 / 8 \<le> t"
    unfolding t_def using P8 by (simp add: pos_le_divide_eq)
  moreover have "x * P \<le> (5 - 5 / 2 ^ p) * P"
    using assms(4) Ppos by (simp add: mult_right_mono)
  moreover have "(5 - 5 / 2 ^ p) * P = 5 * P - 5 * t"
    by (simp add: t_def algebra_simps)
  ultimately have "x * P + 1 / 2 < 5 * P"
    by linarith
  with roundEven_upper [of "x * P"] have "of_int (roundEven (x * P)) < 5 * P"
    by linarith
  then have "of_int (roundEven (x * P)) / P < 5"
    using Ppos by (simp add: field_simps)
  moreover have "roundToPrecision p m x = of_int (roundEven (x * P)) * (2 ^ k / 2 ^ m)"
    by (simp add: roundToPrecision_def Let_def q flip: s_def k_def)
  ultimately show ?thesis
    by (simp add: r)
qed

lemma fixed_point_below_one:
  assumes "1 \<le> p" and "p \<le> m" and "roundToPrecision p m r = r" and "r < 1"
  shows "r \<le> 1 - 1 / 2 ^ p"
proof (rule ccontr)
  assume "\<not> r \<le> 1 - 1 / 2 ^ p"
  then have big: "1 - 1 / 2 ^ p < r"
    by simp
  define s where "s = r * 2 ^ m"
  have "s < 2 ^ m"
    using assms(4) by (simp add: s_def)
  then have le: "floorlog 2 (nat \<lfloor>s\<rfloor>) \<le> m"
    by (rule floorlog_floor_le)
  have "(1::rat) / 2 ^ p \<le> 1 / 2"
    using assms(1) power_increasing [of 1 p "2::rat"] by (simp add: field_simps)
  with big have "1 / 2 \<le> r"
    by linarith
  then have "2 ^ m / 2 \<le> s"
    by (simp add: s_def field_simps)
  moreover have "(2::rat) ^ m / 2 = 2 ^ (m - 1)"
    using assms(1,2) by (cases m) simp_all
  ultimately have "2 ^ (m - 1) \<le> s"
    by simp
  then have "m \<le> floorlog 2 (nat \<lfloor>s\<rfloor>)"
    by (rule floorlog_floor_ge)
  with le have k: "floorlog 2 (nat \<lfloor>s\<rfloor>) - p = m - p"
    by simp
  have q: "s / 2 ^ (m - p) = r * 2 ^ p"
    using assms(2) by (simp add: s_def power_diff)
  have d: "(2::rat) ^ (m - p) / 2 ^ m = 1 / 2 ^ p"
    using assms(2) by (simp add: power_diff)
  have "roundToPrecision p m r = of_int (roundEven (r * 2 ^ p)) * (2 ^ (m - p) / 2 ^ m)"
    by (simp add: roundToPrecision_def Let_def k q flip: s_def)
  with assms(3) have "of_int (roundEven (r * 2 ^ p)) / 2 ^ p = r"
    by (simp add: d)
  then have j: "of_int (roundEven (r * 2 ^ p)) = r * 2 ^ p"
    by (simp add: field_simps)
  have "r * 2 ^ p < 2 ^ p"
    using assms(4) by simp
  with j have "(of_int (roundEven (r * 2 ^ p)) :: rat) < of_int (2 ^ p)"
    by simp
  then have "roundEven (r * 2 ^ p) < 2 ^ p"
    by (simp only: of_int_less_iff)
  moreover have "2 ^ p - 1 < r * 2 ^ p"
    using big by (simp add: field_simps)
  with j have "(of_int (2 ^ p - 1) :: rat) < of_int (roundEven (r * 2 ^ p))"
    by simp
  then have "(2::int) ^ p - 1 < roundEven (r * 2 ^ p)"
    by (simp only: of_int_less_iff)
  ultimately show False
    by linarith
qed

lemma random_target_in_range:
  assumes "isDouble rnd" and "0 \<le> rnd" and "rnd < 1"
  shows "0 \<le> \<lfloor>roundToDouble (rnd * 5)\<rfloor>" and "\<lfloor>roundToDouble (rnd * 5)\<rfloor> \<le> 4"
proof -
  have "rnd \<le> 1 - 1 / 2 ^ 53"
    using assms(1,3) unfolding isDouble_def roundToDouble_def
    by (intro fixed_point_below_one [where m = 1074]) simp_all
  then have "rnd * 5 \<le> 5 - 5 / 2 ^ 53"
    by simp
  moreover have "0 \<le> rnd * 5"
    using assms(2) by simp
  ultimately have "roundToDouble (rnd * 5) < 5"
    unfolding roundToDouble_def
    by (intro roundToPrecision_below_five) simp_all
  then have "\<lfloor>roundToDouble (rnd * 5)\<rfloor> < 5"
    by (simp add: floor_less_iff)
  then show "\<lfloor>roundToDouble (rnd * 5)\<rfloor> \<le> 4"
    by simp
  show "0 \<le> \<lfloor>roundToDouble (rnd * 5)\<rfloor>"
    using assms(2) by (simp add: roundToDouble_def roundToPrecision_nonneg)
qed

lemma sixTenths_rounded:
  "roundToPrecision 53 1074 sixTenths = of_int (roundEven (sixTenths * 2 ^ 53)) / 2 ^ 53"
proof (rule roundToPrecision_normal)
  show "(53::nat) \<le> 1074" by simp
  show "(0::nat) < 53" by simp
  show "(2::rat) ^ (53 - 1) \<le> sixTenths * 2 ^ 53" by simp
  show "(sixTenths * 2 ^ 53 :: rat) < 2 ^ 53" by simp
qed

lemma sixTenths_double: "isDouble sixTenths"
proof -
  have "(sixTenths * 2 ^ 53 :: rat) = of_int 5404319552844595"
    by simp
  then have "of_int (roundEven (sixTenths * 2 ^ 53)) / (2 ^ 53 :: rat) = sixTenths"
    by (simp only: roundEven_of_int) simp
  then show ?thesis
    by (simp only: isDouble_def roundToDouble_def sixTenths_rounded)
qed

lemma sixTenths_product_rounded:
  "roundToPrecision 53 1074 (sixTenths * 5)
     = of_int (roundEven (sixTenths * 5 * 2 ^ 51)) / 2 ^ 51"
proof (rule roundToPrecision_normal)
  show "(51::nat) \<le> 1074" by simp
  show "(0::nat) < 53" by simp
  show "(2::rat) ^ (53 - 1) \<le> sixTenths * 5 * 2 ^ 51" by simp
  show "(sixTenths * 5 * 2 ^ 51 :: rat) < 2 ^ 53" by simp
qed

text \<open>The exact product is \<open>3 - 5 / 2 ^ 53\<close>; rounded to a double it is 3, so the target
  is 4 where exact arithmetic would give 3.\<close>

lemma sixTenths_target: "\<lfloor>roundToDouble (sixTenths * 5)\<rfloor> + 1 = 4"
proof -
  have "(sixTenths * 5 * 2 ^ 51 :: rat) = 27021597764222975 / 4"
    by simp
  moreover have "\<lfloor>27021597764222975 / 4 :: rat\<rfloor> = 6755399441055743"
    by (rule floor_unique) simp_all
  then have "roundEven (27021597764222975 / 4) = 6755399441055744"
    by (simp add: roundEven_def Let_def)
  ultimately have "roundToPrecision 53 1074 (sixTenths * 5) = of_int 6755399441055744 / 2 ^ 51"
    by (simp only: sixTenths_product_rounded)
  also have "\<dots> = 3"
    by simp
  finally show ?thesis
    by (simp only: roundToDouble_def) simp
qed

lemma half_product_rounded:
  "roundToPrecision 53 1074 (1 / 2 * 5) = of_int (roundEven (1 / 2 * 5 * 2 ^ 51)) / 2 ^ 51"
proof (rule roundToPrecision_normal)
  show "(51::nat) \<le> 1074" by simp
  show "(0::nat) < 53" by simp
  show "(2::rat) ^ (53 - 1) \<le> 1 / 2 * 5 * 2 ^ 51" by simp
  show "(1 / 2 * 5 * 2 ^ 51 :: rat) < 2 ^ 53" by simp
qed

lemma half_target: "\<lfloor>roundToDouble (1 / 2 * 5)\<rfloor> + 1 = 3"
proof -
  have "(1 / 2 * 5 * 2 ^ 51 :: rat) = of_int 5629499534213120"
    by simp
  then have "roundToPrecision 53 1074 (1 / 2 * 5) = of_int 5629499534213120 / 2 ^ 51"
    by (simp only: half_product_rounded roundEven_of_int)
  also have "\<dots> = 5 / 2"
    by simp
  finally have r: "roundToDouble (1 / 2 * 5) = 5 / 2"
    by (simp only: roundToDouble_def)
  have f: "\<lfloor>5 / 2 :: rat\<rfloor> = 2"
    by (rule floor_unique) simp_all
  have "\<lfloor>roundToDouble (1 / 2 * 5)\<rfloor> = 2"
    by (simp only: r f)
  then show ?thesis
    by linarith
qed

section \<open>Guess mode\<close>

text \<open>
  C3, as the specification states it: a text that is not a valid base-10 integer, received
  while a guess is pending, gets the numeric guidance and changes nothing.
  The handler reads the text with \<open>parseInt\<close>, which accepts any text that begins with an
  integer: with the target 3 pending, the text "3.5" is not a valid integer, and yet it is
  taken as the guess 3, rewarded with 2 points, and the pending task is removed.
\<close>

theorem parseInt_accepts_decimal_fraction:
  "\<not> spec_valid_integer ''3.5''
   \<and> sent (POST sampleEnv
        0 0
        (textEvent sampleEnv
           42 ''3.5'')
        \<lparr>users = [42 \<mapsto> row 0],
         pendingTasks = [42 \<mapsto> guessing 3]\<rparr>)
     = Some (42, Correct 2)
   \<and> pendingTasks (after (POST sampleEnv
        0 0
        (textEvent sampleEnv
           42 ''3.5'')
        \<lparr>users = [42 \<mapsto> row 0],
         pendingTasks = [42 \<mapsto> guessing 3]\<rparr>)) 42
     = None"
  by (simp add: spec_valid_integer_def isDigit_def POST_textEvent guessMode_def trim_def
      isWhiteSpace_def parseInt10_def digitsValue_def digitValue_def updatePoints_def
      getUser_def pointsOrZero_def updateRow_def sent_def after_def Let_def)

text \<open>
  C3, amended: while a guess is pending, the numeric guidance is the reply exactly when
  \<open>parseInt(text, 10)\<close> is \<open>NaN\<close>, that is when the text, after leading white space and an
  optional sign, does not begin with a decimal digit (as "abc"); then nothing is written:
  no points and the same pending task. A text that begins with an integer is a guess.
\<close>

theorem guidance_iff_parseInt_NaN:
  assumes "chatId \<noteq> 0" and "pendingTasks st chatId = Some pending"
    and "task_type pending = guess"
  shows "(sent (POST e rnd now (textEvent e chatId t) st) = Some (chatId, NumberPlease)
            \<longleftrightarrow> parseInt10 (trim t) = None)
       \<and> (parseInt10 (trim t) = None \<longrightarrow>
            POST e rnd now (textEvent e chatId t) st = (OkTrue, Some (chatId, NumberPlease), st))"
  using assms
  by (auto simp: POST_textEvent guessMode_def sent_def split: option.splits prod.splits)

theorem guidance_iff_parseInt_NaN_witness:
  "sent (POST sampleEnv 0 0 (textEvent sampleEnv 42 ''abc'')
      \<lparr>users = Map.empty, pendingTasks = [42 \<mapsto> guessing 3]\<rparr>)
     = Some (42, NumberPlease)
   \<and> parseInt10 (trim ''abc'') = None
   \<and> POST sampleEnv 0 0 (textEvent sampleEnv 42 ''abc'')
      \<lparr>users = Map.empty, pendingTasks = [42 \<mapsto> guessing 3]\<rparr>
     = (OkTrue, Some (42, NumberPlease),
        \<lparr>users = Map.empty, pendingTasks = [42 \<mapsto> guessing 3]\<rparr>)"
proof -
  have n: "parseInt10 (trim ''abc'') = None"
    by (simp add: trim_def isWhiteSpace_def parseInt10_def isDigit_def Let_def)
  show ?thesis
    using n guidance_iff_parseInt_NaN [of 42
        "\<lparr>users = Map.empty, pendingTasks = [42 \<mapsto> guessing 3]\<rparr>"
        "guessing 3" sampleEnv 0 0 "''abc''"]
    by (simp add: sent_def)
qed

text \<open>
  C5: a user without a row sends \<open>/guess\<close>, and \<open>Math.random()\<close> gives 0.5, so
  that the target is 3. The user then sends the right number. The pending task is removed
  and the reply announces the total 2, but \<open>updatePoints\<close> finds no row to update: the
  delta 2 is applied to nothing, there is still no row and the balance read back is 0.
  (The wrong number leaves the guess pending with delta 0, as the claim says.)
\<close>

theorem correct_guess_is_not_persisted:
  "POST sampleEnv (1 / 2) 0 (textEvent sampleEnv 42 ''/guess'') fresh
     = (OkTrue, Some (42, GuessPrompt), \<lparr>users = Map.empty, pendingTasks = [42 \<mapsto> guessing 3]\<rparr>)
   \<and> sent (POST sampleEnv 0 0 (textEvent sampleEnv 42 ''3'')
        \<lparr>users = Map.empty, pendingTasks = [42 \<mapsto> guessing 3]\<rparr>) = Some (42, Correct 2)
   \<and> pendingTasks (after (POST sampleEnv 0 0 (textEvent sampleEnv 42 ''3'')
        \<lparr>users = Map.empty, pendingTasks = [42 \<mapsto> guessing 3]\<rparr>)) 42 = None
   \<and> users (after (POST sampleEnv 0 0 (textEvent sampleEnv 42 ''3'')
        \<lparr>users = Map.empty, pendingTasks = [42 \<mapsto> guessing 3]\<rparr>)) 42 = None
   \<and> balance (after (POST sampleEnv 0 0 (textEvent sampleEnv 42 ''3'')
        \<lparr>users = Map.empty, pendingTasks = [42 \<mapsto> guessing 3]\<rparr>)) 42 = 0
   \<and> POST sampleEnv 0 0 (textEvent sampleEnv 42 ''4'')
        \<lparr>users = Map.empty, pendingTasks = [42 \<mapsto> guessing 3]\<rparr>
     = (OkTrue, Some (42, WrongGuess), \<lparr>users = Map.empty, pendingTasks = [42 \<mapsto> guessing 3]\<rparr>)"
proof -
  have "commands sampleEnv (1 / 2) 0 42 ''/guess'' fresh
      = (OkTrue, Some (42, GuessPrompt),
         fresh\<lparr>pendingTasks :=
                 (pendingTasks fresh)(42 \<mapsto> guessing (\<lfloor>roundToDouble (1 / 2 * 5)\<rfloor> + 1))\<rparr>)"
    by (rule commands_guess) (simp add: startsWith_def)
  then have "commands sampleEnv (1 / 2) 0 42 ''/guess'' fresh
      = (OkTrue, Some (42, GuessPrompt),
         fresh\<lparr>pendingTasks := (pendingTasks fresh)(42 \<mapsto> guessing 3)\<rparr>)"
    by (simp only: half_target)
  then have "commands sampleEnv (1 / 2) 0 42 ''/guess'' fresh
      = (OkTrue, Some (42, GuessPrompt), \<lparr>users = Map.empty, pendingTasks = [42 \<mapsto> guessing 3]\<rparr>)"
    by (simp add: fresh_def)
  moreover have "POST sampleEnv (1 / 2) 0 (textEvent sampleEnv 42 ''/guess'') fresh
      = commands sampleEnv (1 / 2) 0 42 ''/guess'' fresh"
    by (simp add: POST_textEvent fresh_def trim_def isWhiteSpace_def)
  ultimately have first: "POST sampleEnv (1 / 2) 0 (textEvent sampleEnv 42 ''/guess'') fresh
      = (OkTrue, Some (42, GuessPrompt), \<lparr>users = Map.empty, pendingTasks = [42 \<mapsto> guessing 3]\<rparr>)"
    by simp
  have rest: "sent (POST sampleEnv 0 0 (textEvent sampleEnv 42 ''3'')
        \<lparr>users = Map.empty, pendingTasks = [42 \<mapsto> guessing 3]\<rparr>) = Some (42, Correct 2)
   \<and> pendingTasks (after (POST sampleEnv 0 0 (textEvent sampleEnv 42 ''3'')
        \<lparr>users = Map.empty, pendingTasks = [42 \<mapsto> guessing 3]\<rparr>)) 42 = None
   \<and> users (after (POST sampleEnv 0 0 (textEvent sampleEnv 42 ''3'')
        \<lparr>users = Map.empty, pendingTasks = [42 \<mapsto> guessing 3]\<rparr>)) 42 = None
   \<and> balance (after (POST sampleEnv 0 0 (textEvent sampleEnv 42 ''3'')
        \<lparr>users = Map.empty, pendingTasks = [42 \<mapsto> guessing 3]\<rparr>)) 42 = 0
   \<and> POST sampleEnv 0 0 (textEvent sampleEnv 42 ''4'')
        \<lparr>users = Map.empty, pendingTasks = [42 \<mapsto> guessing 3]\<rparr>
     = (OkTrue, Some (42, WrongGuess), \<lparr>users = Map.empty, pendingTasks = [42 \<mapsto> guessing 3]\<rparr>)"
    by (simp add: POST_textEvent guessMode_def trim_def isWhiteSpace_def parseInt10_def
        isDigit_def digitsValue_def digitValue_def updatePoints_def getUser_def
        pointsOrZero_def updateRow_def balance_def sent_def after_def Let_def)
  from first rest show ?thesis
    by blast
qed

text \<open>
  C6, as the specification states it: with a guess pending, every non-numeric input gets
  the numeric guidance and changes nothing. The text "3abc" is not a number, but \<open>parseInt\<close>
  reads its leading 3: with the target 3 pending it is taken as the right guess, rewarded
  with 2 points, and the pending task is removed.
\<close>

theorem digit_prefix_is_a_guess:
  "\<not> spec_valid_integer ''3abc''
   \<and> sent (POST sampleEnv 0 0 (textEvent sampleEnv 42 ''3abc'')
        \<lparr>users = [42 \<mapsto> row 0], pendingTasks = [42 \<mapsto> guessing 3]\<rparr>)
     = Some (42, Correct 2)
   \<and> sent (POST sampleEnv 0 0 (textEvent sampleEnv 42 ''3abc'')
        \<lparr>users = [42 \<mapsto> row 0], pendingTasks = [42 \<mapsto> guessing 3]\<rparr>)
     \<noteq> Some (42, NumberPlease)
   \<and> pendingTasks (after (POST sampleEnv 0 0 (textEvent sampleEnv 42 ''3abc'')
        \<lparr>users = [42 \<mapsto> row 0], pendingTasks = [42 \<mapsto> guessing 3]\<rparr>)) 42
     = None
   \<and> balance (after (POST sampleEnv 0 0 (textEvent sampleEnv 42 ''3abc'')
        \<lparr>users = [42 \<mapsto> row 0], pendingTasks = [42 \<mapsto> guessing 3]\<rparr>)) 42
     = 2"
  by (simp add: spec_valid_integer_def isDigit_def POST_textEvent guessMode_def trim_def
      isWhiteSpace_def parseInt10_def digitsValue_def digitValue_def updatePoints_def
      getUser_def pointsOrZero_def updateRow_def balance_def sent_def after_def Let_def)

text \<open>
  C6, amended: while a guess is pending every text is handled as a guess attempt and no
  command is looked at: the outcome is the one of the guess branch, decided by
  \<open>parseInt\<close> alone. In particular every text that does not begin with an integer (for which
  \<open>parseInt\<close> gives \<open>NaN\<close>), so every text that begins with a slash (\<open>/start\<close>, \<open>/click\<close>,
  \<open>/done ad\<close>, ...) and every text without a digit, gets the numeric guidance; the handler
  does nothing else and leaves the table of users and the pending tasks as they are. A text
  that begins with an integer is a guess of that integer, whatever follows the digits.
\<close>

theorem guess_precedence:
  assumes "chatId \<noteq> 0" and "pendingTasks st chatId = Some pending"
    and "task_type pending = guess"
  shows "POST e rnd now (textEvent e chatId t) st =
           (case parseInt10 (trim t) of
              None \<Rightarrow> (OkTrue, Some (chatId, NumberPlease), st)
            | Some n \<Rightarrow>
                if Some n = task_number pending
                then (OkTrue, Some (chatId, Correct (balance st chatId + 2)),
                      st\<lparr>users := snd (updatePoints chatId 2 (users st)),
                         pendingTasks := (pendingTasks st)(chatId := None)\<rparr>)
                else (OkTrue, Some (chatId, WrongGuess), st))
       \<and> (startsWith (trim t) ''/'' \<or> (\<forall>c \<in> set t. \<not> isDigit c) \<or> parseInt10 (trim t) = None
            \<longrightarrow> POST e rnd now (textEvent e chatId t) st
                  = (OkTrue, Some (chatId, NumberPlease), st))"
proof (intro conjI impI)
  show "POST e rnd now (textEvent e chatId t) st =
           (case parseInt10 (trim t) of
              None \<Rightarrow> (OkTrue, Some (chatId, NumberPlease), st)
            | Some n \<Rightarrow>
                if Some n = task_number pending
                then (OkTrue, Some (chatId, Correct (balance st chatId + 2)),
                      st\<lparr>users := snd (updatePoints chatId 2 (users st)),
                         pendingTasks := (pendingTasks st)(chatId := None)\<rparr>)
                else (OkTrue, Some (chatId, WrongGuess), st))"
    using assms
    by (simp add: POST_textEvent guessMode_def updatePoints_def balance_def Let_def
        split: option.splits)
next
  assume "startsWith (trim t) ''/'' \<or> (\<forall>c \<in> set t. \<not> isDigit c) \<or> parseInt10 (trim t) = None"
  then have "parseInt10 (trim t) = None"
    using set_trim [of t]
    by (auto simp: startsWith_Cons intro: parseInt10_slash parseInt10_no_digit)
  then show "POST e rnd now (textEvent e chatId t) st = (OkTrue, Some (chatId, NumberPlease), st)"
    using assms by (simp add: POST_textEvent guessMode_def)
qed

theorem guess_precedence_witness:
  "POST sampleEnv 0 0 (textEvent sampleEnv 42 ''/click'')
      \<lparr>users = [42 \<mapsto> row 4], pendingTasks = [42 \<mapsto> guessing 3]\<rparr>
     = (OkTrue, Some (42, NumberPlease),
        \<lparr>users = [42 \<mapsto> row 4], pendingTasks = [42 \<mapsto> guessing 3]\<rparr>)
   \<and> POST sampleEnv 0 0 (textEvent sampleEnv 42 ''/start'')
      \<lparr>users = Map.empty, pendingTasks = [42 \<mapsto> guessing 3]\<rparr>
     = (OkTrue, Some (42, NumberPlease),
        \<lparr>users = Map.empty, pendingTasks = [42 \<mapsto> guessing 3]\<rparr>)
   \<and> POST sampleEnv 0 0 (textEvent sampleEnv 42 ''hello'')
      \<lparr>users = Map.empty, pendingTasks = [42 \<mapsto> guessing 3]\<rparr>
     = (OkTrue, Some (42, NumberPlease),
        \<lparr>users = Map.empty, pendingTasks = [42 \<mapsto> guessing 3]\<rparr>)
   \<and> POST sampleEnv 0 0 (textEvent sampleEnv 42 ''4 /click'')
      \<lparr>users = [42 \<mapsto> row 4], pendingTasks = [42 \<mapsto> guessing 3]\<rparr>
     = (OkTrue, Some (42, WrongGuess),
        \<lparr>users = [42 \<mapsto> row 4], pendingTasks = [42 \<mapsto> guessing 3]\<rparr>)"
proof -
  let ?a = "\<lparr>users = [42 \<mapsto> row 4], pendingTasks = [42 \<mapsto> guessing 3]\<rparr>"
  let ?b = "\<lparr>users = Map.empty, pendingTasks = [42 \<mapsto> guessing 3]\<rparr>"
  have c: "(42::int) \<noteq> 0" and pa: "pendingTasks ?a 42 = Some (guessing 3)"
    and pb: "pendingTasks ?b 42 = Some (guessing 3)" and g: "task_type (guessing 3) = guess"
    by simp_all
  have click: "startsWith (trim ''/click'') ''/''" and start: "startsWith (trim ''/start'') ''/''"
    by (simp_all add: startsWith_def trim_def isWhiteSpace_def)
  have hello: "\<forall>c \<in> set ''hello''. \<not> isDigit c"
    by (simp add: isDigit_def)
  have four: "parseInt10 (trim ''4 /click'') = Some 4"
    by (simp add: trim_def isWhiteSpace_def parseInt10_def isDigit_def digitsValue_def
        digitValue_def Let_def)
  have "POST sampleEnv 0 0 (textEvent sampleEnv 42 ''/click'') ?a
      = (OkTrue, Some (42, NumberPlease), ?a)"
    using guess_precedence [OF c pa g, of sampleEnv 0 0 "''/click''"] click by blast
  moreover have "POST sampleEnv 0 0 (textEvent sampleEnv 42 ''/start'') ?b
      = (OkTrue, Some (42, NumberPlease), ?b)"
    using guess_precedence [OF c pb g, of sampleEnv 0 0 "''/start''"] start by blast
  moreover have "POST sampleEnv 0 0 (textEvent sampleEnv 42 ''hello'') ?b
      = (OkTrue, Some (42, NumberPlease), ?b)"
    using guess_precedence [OF c pb g, of sampleEnv 0 0 "''hello''"] hello by blast
  moreover have "POST sampleEnv 0 0 (textEvent sampleEnv 42 ''4 /click'') ?a
      = (OkTrue, Some (42, WrongGuess), ?a)"
    using guess_precedence [OF c pa g, of sampleEnv 0 0 "''4 /click''", THEN conjunct1]
    by (simp add: four)
  ultimately show ?thesis
    by blast
qed

section \<open>Commands\<close>

lemma done_reaches_branch:
  assumes "startsWith text ''/done video'' \<or> startsWith text ''/done ad''"
  shows "\<not> startsWith text ''/start''" and "\<not> startsWith text ''/points''"
    and "\<not> startsWith text ''/click''" and "\<not> startsWith text ''/video''"
    and "\<not> startsWith text ''/ad''"
  using assms by (auto simp: startsWith_Cons)

lemma commands_done:
  assumes "startsWith text ''/done video'' \<or> startsWith text ''/done ad''"
  shows "commands e rnd now chatId text st =
     (let doneType = (if includesStr text ''video'' then video else ad)
      in if map_option task_type (pendingTasks st chatId) = Some doneType then
           (let pts = (if doneType = video then 5 else 3);
                (total, tbl) = updatePoints chatId pts (users st)
            in (OkTrue, Some (chatId, Earned pts total),
                st\<lparr>users := tbl, pendingTasks := (pendingTasks st)(chatId := None)\<rparr>))
         else (OkTrue, Some (chatId, NoPending doneType), st))"
  using assms done_reaches_branch [OF assms] by (simp add: commands_def)

lemma commands_ad:
  "commands e rnd now chatId ''/ad'' st =
     (OkTrue, Some (chatId, VisitAd (orDefault (DRAWCOIN_AD_URL e) ''https://example.com/ad'')),
      st\<lparr>pendingTasks := (pendingTasks st)(chatId \<mapsto> waiting ad)\<rparr>)"
  by (simp add: commands_def startsWith_def)

lemma trim_plain [simp]:
  "trim ''/ad'' = ''/ad''" "trim ''/done ad'' = ''/done ad''" "trim ''/click'' = ''/click''"
  "trim ''/points'' = ''/points''" "trim ''/start'' = ''/start''" "trim ''/guess'' = ''/guess''"
  "trim ''/video'' = ''/video''" "trim ''/done video'' = ''/done video''"
  by (simp_all add: trim_def isWhiteSpace_def)

lemma includes_done_ad [simp]: "\<not> includesStr ''/done ad'' ''video''"
  by (simp add: startsWith_def)

lemma commands_done_ad:
  "commands e rnd now chatId ''/done ad'' st =
     (if map_option task_type (pendingTasks st chatId) = Some ad then
        (OkTrue, Some (chatId, Earned 3 (fst (updatePoints chatId 3 (users st)))),
         st\<lparr>users := snd (updatePoints chatId 3 (users st)),
            pendingTasks := (pendingTasks st)(chatId := None)\<rparr>)
      else (OkTrue, Some (chatId, NoPending ad), st))"
proof -
  have "startsWith ''/done ad'' ''/done video'' \<or> startsWith ''/done ad'' ''/done ad''"
    by (simp add: startsWith_def)
  from commands_done [OF this] show ?thesis
    by (simp add: Let_def startsWith_def split: prod.splits)
qed

text \<open>
  C7, as the specification states it: a \<open>/done\<close> command whose kind is not the kind of the
  pending task is answered with "no pending <kind> task". With a guess pending the text
  \<open>/done ad\<close> never reaches the \<open>/done\<close> branch: it is tried as a guess and answered with
  the numeric guidance.
\<close>

theorem done_while_guessing_gets_guidance:
  "map_option task_type
     (pendingTasks \<lparr>users = [42 \<mapsto> row 4], pendingTasks = [42 \<mapsto> guessing 3]\<rparr> 42) \<noteq> Some ad
   \<and> sent (POST sampleEnv 0 0 (textEvent sampleEnv 42 ''/done ad'')
        \<lparr>users = [42 \<mapsto> row 4], pendingTasks = [42 \<mapsto> guessing 3]\<rparr>)
     = Some (42, NumberPlease)
   \<and> sent (POST sampleEnv 0 0 (textEvent sampleEnv 42 ''/done ad'')
        \<lparr>users = [42 \<mapsto> row 4], pendingTasks = [42 \<mapsto> guessing 3]\<rparr>)
     \<noteq> Some (42, NoPending ad)"
  by (simp add: POST_textEvent guessMode_def parseInt10_def isWhiteSpace_def isDigit_def
      sent_def Let_def)

text \<open>
  C7, amended: let a \<open>/done video\<close> or \<open>/done ad\<close> text arrive while the pending task of
  the user is not of the kind it names (or there is none). If the pending task is a video or
  an ad task, or there is none, the reply is "no pending <kind> task"; if it is a guess, the
  reply is the numeric guidance. In both cases no points are applied and the pending task
  stays. Hence after \<open>/ad\<close> and a first \<open>/done ad\<close>, sent with no guess pending, a second
  \<open>/done ad\<close> is answered with "no pending ad task" and changes nothing.
\<close>

theorem wrong_done_is_noop:
  assumes "chatId \<noteq> 0"
  shows "((startsWith (trim t) ''/done video'' \<or> startsWith (trim t) ''/done ad'')
          \<and> doneType = (if includesStr (trim t) ''video'' then video else ad)
          \<and> map_option task_type (pendingTasks st chatId) \<noteq> Some doneType
          \<longrightarrow> POST e rnd now (textEvent e chatId t) st =
                (OkTrue,
                 Some (chatId,
                   if map_option task_type (pendingTasks st chatId) = Some guess
                   then NumberPlease else NoPending doneType),
                 st))
       \<and> (map_option task_type (pendingTasks st chatId) \<noteq> Some guess
          \<longrightarrow> (let st1 = after (POST e rnd now (textEvent e chatId ''/ad'') st);
                    st2 = after (POST e rnd' now' (textEvent e chatId ''/done ad'') st1)
                in POST e rnd'' now'' (textEvent e chatId ''/done ad'') st2
                     = (OkTrue, Some (chatId, NoPending ad), st2)))"
proof (intro conjI impI)
  assume a: "(startsWith (trim t) ''/done video'' \<or> startsWith (trim t) ''/done ad'')
          \<and> doneType = (if includesStr (trim t) ''video'' then video else ad)
          \<and> map_option task_type (pendingTasks st chatId) \<noteq> Some doneType"
  show "POST e rnd now (textEvent e chatId t) st =
                (OkTrue,
                 Some (chatId,
                   if map_option task_type (pendingTasks st chatId) = Some guess
                   then NumberPlease else NoPending doneType),
                 st)"
  proof (cases "map_option task_type (pendingTasks st chatId) = Some guess")
    case True
    then obtain pending where p: "pendingTasks st chatId = Some pending" "task_type pending = guess"
      by auto
    from a have "startsWith (trim t) ''/''"
      by (auto simp: startsWith_Cons)
    then have "parseInt10 (trim t) = None"
      by (auto simp: startsWith_Cons intro: parseInt10_slash)
    with p True assms show ?thesis
      by (simp add: POST_textEvent guessMode_def)
  next
    case False
    with a assms show ?thesis
      by (auto simp: no_guess_dispatch commands_done Let_def)
  qed
next
  assume ng: "map_option task_type (pendingTasks st chatId) \<noteq> Some guess"
  define st1 where "st1 = after (POST e rnd now (textEvent e chatId ''/ad'') st)"
  define st2 where "st2 = after (POST e rnd' now' (textEvent e chatId ''/done ad'') st1)"
  have s1: "st1 = st\<lparr>pendingTasks := (pendingTasks st)(chatId \<mapsto> waiting ad)\<rparr>"
    using assms ng by (simp add: st1_def no_guess_dispatch commands_ad after_def)
  have s2: "pendingTasks st2 chatId = None"
    using assms
    by (simp add: st2_def s1 no_guess_dispatch commands_done_ad after_def)
  have "POST e rnd'' now'' (textEvent e chatId ''/done ad'') st2
          = (OkTrue, Some (chatId, NoPending ad), st2)"
    using assms s2 by (simp add: no_guess_dispatch commands_done_ad)
  then show "let st1 = after (POST e rnd now (textEvent e chatId ''/ad'') st);
                 st2 = after (POST e rnd' now' (textEvent e chatId ''/done ad'') st1)
             in POST e rnd'' now'' (textEvent e chatId ''/done ad'') st2
                  = (OkTrue, Some (chatId, NoPending ad), st2)"
    by (simp add: st1_def st2_def Let_def)
qed

theorem wrong_done_is_noop_witness:
  "POST sampleEnv 0 0 (textEvent sampleEnv 42 ''/done ad'')
      \<lparr>users = [42 \<mapsto> row 1], pendingTasks = [42 \<mapsto> waiting video]\<rparr>
     = (OkTrue, Some (42, NoPending ad),
        \<lparr>users = [42 \<mapsto> row 1], pendingTasks = [42 \<mapsto> waiting video]\<rparr>)
   \<and> (let st1 = after (POST sampleEnv 0 0 (textEvent sampleEnv 42 ''/ad'')
                     \<lparr>users = [42 \<mapsto> row 1], pendingTasks = [42 \<mapsto> waiting video]\<rparr>);
           st2 = after (POST sampleEnv 0 0 (textEvent sampleEnv 42 ''/done ad'') st1)
       in POST sampleEnv 0 0 (textEvent sampleEnv 42 ''/done ad'') st2
            = (OkTrue, Some (42, NoPending ad), st2))"
proof -
  let ?st = "\<lparr>users = [42 \<mapsto> row 1], pendingTasks = [42 \<mapsto> waiting video]\<rparr>"
  have c: "(42::int) \<noteq> 0"
    by simp
  have h: "(startsWith (trim ''/done ad'') ''/done video'' \<or> startsWith (trim ''/done ad'') ''/done ad'')
      \<and> ad = (if includesStr (trim ''/done ad'') ''video'' then video else ad)
      \<and> map_option task_type (pendingTasks ?st 42) \<noteq> Some ad"
    by (simp add: startsWith_def)
  have g: "map_option task_type (pendingTasks ?st 42) \<noteq> Some guess"
    by simp
  note w = wrong_done_is_noop [OF c, of "''/done ad''" ad ?st sampleEnv 0 0 0 0 0 0]
  have "POST sampleEnv 0 0 (textEvent sampleEnv 42 ''/done ad'') ?st
      = (OkTrue, Some (42, if map_option task_type (pendingTasks ?st 42) = Some guess
                           then NumberPlease else NoPending ad), ?st)"
    using w h by blast
  moreover have "let st1 = after (POST sampleEnv 0 0 (textEvent sampleEnv 42 ''/ad'') ?st);
           st2 = after (POST sampleEnv 0 0 (textEvent sampleEnv 42 ''/done ad'') st1)
       in POST sampleEnv 0 0 (textEvent sampleEnv 42 ''/done ad'') st2
            = (OkTrue, Some (42, NoPending ad), st2)"
    using w g by blast
  ultimately show ?thesis
    by simp
qed

text \<open>
  C8, as the specification states it: every \<open>/guess\<close> makes the chosen target the pending
  guess of the user. With the target 2 already pending, \<open>/guess\<close> is tried as a guess: the
  reply is the numeric guidance and the target stays 2, although \<open>Math.random()\<close> (here the
  double nearest to 0.6) would have chosen 4.
\<close>

theorem guess_while_guessing_keeps_target:
  "isDouble sixTenths \<and> 0 \<le> sixTenths \<and> sixTenths < 1
   \<and> \<lfloor>roundToDouble (sixTenths * 5)\<rfloor> + 1 = 4
   \<and> sent (POST sampleEnv sixTenths 0 (textEvent sampleEnv 42 ''/guess'')
        \<lparr>users = [42 \<mapsto> row 1], pendingTasks = [42 \<mapsto> guessing 2]\<rparr>)
     = Some (42, NumberPlease)
   \<and> pendingTasks (after (POST sampleEnv sixTenths 0 (textEvent sampleEnv 42 ''/guess'')
        \<lparr>users = [42 \<mapsto> row 1], pendingTasks = [42 \<mapsto> guessing 2]\<rparr>)) 42
     = Some (guessing 2)"
proof -
  have "sent (POST sampleEnv sixTenths 0 (textEvent sampleEnv 42 ''/guess'')
        \<lparr>users = [42 \<mapsto> row 1], pendingTasks = [42 \<mapsto> guessing 2]\<rparr>)
     = Some (42, NumberPlease)
   \<and> pendingTasks (after (POST sampleEnv sixTenths 0 (textEvent sampleEnv 42 ''/guess'')
        \<lparr>users = [42 \<mapsto> row 1], pendingTasks = [42 \<mapsto> guessing 2]\<rparr>)) 42
     = Some (guessing 2)"
    by (simp add: POST_textEvent guessMode_def parseInt10_def isWhiteSpace_def isDigit_def
        sent_def after_def Let_def)
  moreover have "0 \<le> sixTenths \<and> sixTenths < 1"
    by simp
  ultimately show ?thesis
    using sixTenths_double sixTenths_target by blast
qed

text \<open>
  C8, amended: let \<open>Math.random()\<close> give the double \<open>rnd\<close> with \<open>0 \<le> rnd < 1\<close>. The target
  \<open>r = floor (rnd * 5) + 1\<close>, with the product rounded to a double, lies between 1 and 5.
  When \<open>/guess\<close> arrives and no guess is pending, the pending task of the user becomes the
  guess with target \<open>r\<close>, whatever video or ad task was pending before, and the table of
  users is not touched. When a guess is pending already, \<open>/guess\<close> is tried as a guess:
  the reply is the numeric guidance and nothing changes.
\<close>

theorem begin_guess_target:
  assumes "chatId \<noteq> 0" and "startsWith (trim t) ''/guess''"
    and "isDouble rnd" and "0 \<le> rnd" and "rnd < 1"
  shows "1 \<le> \<lfloor>roundToDouble (rnd * 5)\<rfloor> + 1 \<and> \<lfloor>roundToDouble (rnd * 5)\<rfloor> + 1 \<le> 5
       \<and> (map_option task_type (pendingTasks st chatId) \<noteq> Some guess \<longrightarrow>
            POST e rnd now (textEvent e chatId t) st =
              (OkTrue, Some (chatId, GuessPrompt),
               st\<lparr>pendingTasks :=
                    (pendingTasks st)(chatId \<mapsto> guessing (\<lfloor>roundToDouble (rnd * 5)\<rfloor> + 1))\<rparr>))
       \<and> (map_option task_type (pendingTasks st chatId) = Some guess \<longrightarrow>
            POST e rnd now (textEvent e chatId t) st = (OkTrue, Some (chatId, NumberPlease), st))"
proof (intro conjI impI)
  show "1 \<le> \<lfloor>roundToDouble (rnd * 5)\<rfloor> + 1" and "\<lfloor>roundToDouble (rnd * 5)\<rfloor> + 1 \<le> 5"
    using random_target_in_range [OF assms(3-5)] by simp_all
next
  assume "map_option task_type (pendingTasks st chatId) \<noteq> Some guess"
  then show "POST e rnd now (textEvent e chatId t) st =
              (OkTrue, Some (chatId, GuessPrompt),
               st\<lparr>pendingTasks :=
                    (pendingTasks st)(chatId \<mapsto> guessing (\<lfloor>roundToDouble (rnd * 5)\<rfloor> + 1))\<rparr>)"
    using assms(1,2) by (simp add: no_guess_dispatch commands_guess)
next
  assume "map_option task_type (pendingTasks st chatId) = Some guess"
  then obtain pending where p: "pendingTasks st chatId = Some pending" "task_type pending = guess"
    by auto
  from assms(2) have "parseInt10 (trim t) = None"
    by (auto simp: startsWith_Cons intro: parseInt10_slash)
  with p assms(1) show "POST e rnd now (textEvent e chatId t) st
      = (OkTrue, Some (chatId, NumberPlease), st)"
    by (simp add: POST_textEvent guessMode_def)
qed

theorem begin_guess_target_witness:
  "POST sampleEnv sixTenths 0 (textEvent sampleEnv 42 ''/guess'')
      \<lparr>users = [42 \<mapsto> row 1], pendingTasks = [42 \<mapsto> waiting video]\<rparr>
     = (OkTrue, Some (42, GuessPrompt),
        \<lparr>users = [42 \<mapsto> row 1], pendingTasks = [42 \<mapsto> guessing 4]\<rparr>)
   \<and> POST sampleEnv sixTenths 0 (textEvent sampleEnv 42 ''/guess'')
      \<lparr>users = [42 \<mapsto> row 1], pendingTasks = [42 \<mapsto> guessing 2]\<rparr>
     = (OkTrue, Some (42, NumberPlease),
        \<lparr>users = [42 \<mapsto> row 1], pendingTasks = [42 \<mapsto> guessing 2]\<rparr>)"
proof -
  let ?v = "\<lparr>users = [42 \<mapsto> row 1], pendingTasks = [42 \<mapsto> waiting video]\<rparr>"
  let ?g = "\<lparr>users = [42 \<mapsto> row 1], pendingTasks = [42 \<mapsto> guessing 2]\<rparr>"
  have c: "(42::int) \<noteq> 0" and s: "startsWith (trim ''/guess'') ''/guess''"
    and lo: "0 \<le> sixTenths" and hi: "sixTenths < 1"
    by (simp_all add: startsWith_def)
  have nv: "map_option task_type (pendingTasks ?v 42) \<noteq> Some guess"
    and ng: "map_option task_type (pendingTasks ?g 42) = Some guess"
    by simp_all
  note w = begin_guess_target [OF c s sixTenths_double lo hi]
  have "POST sampleEnv sixTenths 0 (textEvent sampleEnv 42 ''/guess'') ?v
      = (OkTrue, Some (42, GuessPrompt),
         ?v\<lparr>pendingTasks :=
              (pendingTasks ?v)(42 \<mapsto> guessing (\<lfloor>roundToDouble (sixTenths * 5)\<rfloor> + 1))\<rparr>)"
    using w [of ?v sampleEnv 0] nv by blast
  then have "POST sampleEnv sixTenths 0 (textEvent sampleEnv 42 ''/guess'') ?v
      = (OkTrue, Some (42, GuessPrompt),
         ?v\<lparr>pendingTasks := (pendingTasks ?v)(42 \<mapsto> guessing 4)\<rparr>)"
    by (simp only: sixTenths_target)
  then have "POST sampleEnv sixTenths 0 (textEvent sampleEnv 42 ''/guess'') ?v
      = (OkTrue, Some (42, GuessPrompt),
         \<lparr>users = [42 \<mapsto> row 1], pendingTasks = [42 \<mapsto> guessing 4]\<rparr>)"
    by simp
  moreover have "POST sampleEnv sixTenths 0 (textEvent sampleEnv 42 ''/guess'') ?g
      = (OkTrue, Some (42, NumberPlease), ?g)"
    using w [of ?g sampleEnv 0] ng by blast
  ultimately show ?thesis
    by blast
qed

section \<open>The ledger\<close>

text \<open>
  C2: the very first command of a user is \<open>/click\<close>. \<open>updatePoints\<close> reads no row, takes 0
  as the balance, and its \<open>update\<close> statement matches no row: the reply announces the total 1,
  but no row is written, and \<open>/points\<close> right after creates the row with 0 points. Only
  \<open>/start\<close> and \<open>/points\<close> go through \<open>ensureUser\<close>.
\<close>

theorem first_click_is_not_persisted:
  "POST sampleEnv 0 0 (textEvent sampleEnv 42 ''/click'') fresh
     = (OkTrue, Some (42, ThanksForClicking 1), fresh)
   \<and> users (after (POST sampleEnv 0 0 (textEvent sampleEnv 42 ''/click'') fresh)) 42 = None
   \<and> sent (POST sampleEnv 0 0 (textEvent sampleEnv 42 ''/points'')
        (after (POST sampleEnv 0 0 (textEvent sampleEnv 42 ''/click'') fresh)))
     = Some (42, YouHave 0)"
  by (simp add: POST_textEvent fresh_def commands_def startsWith_def updatePoints_def
      getUser_def pointsOrZero_def updateRow_def ensureUser_def createUser_def
      sent_def after_def Let_def)

section \<open>What one request can write\<close>

lemma updatePoints_other:
  "b \<noteq> a \<Longrightarrow> snd (updatePoints a d tbl) b = tbl b"
  by (simp add: updatePoints_def updateRow_def Let_def split: option.splits)

lemma ensureUser_other:
  "b \<noteq> a \<Longrightarrow> snd (ensureUser now a tbl) b = tbl b"
  by (simp add: ensureUser_def createUser_def getUser_def Let_def split: option.splits)

lemma guessMode_other:
  assumes "b \<noteq> chatId"
  shows "users (after (guessMode chatId text pending st)) b = users st b"
    and "pendingTasks (after (guessMode chatId text pending st)) b = pendingTasks st b"
  using assms
  by (auto simp: guessMode_def after_def updatePoints_other split_beta split: option.splits)

lemma commands_other:
  assumes "b \<noteq> chatId"
  shows "users (after (commands e rnd now chatId text st)) b = users st b"
    and "pendingTasks (after (commands e rnd now chatId text st)) b = pendingTasks st b"
  using assms updatePoints_other [OF assms] ensureUser_other [OF assms]
  by (auto simp: commands_def after_def Let_def split_beta)

lemma POST_cases:
  "after (POST e rnd now req st) = st
   \<or> (\<exists>chatId text. sender req = Some chatId \<and> chatId \<noteq> 0
        \<and> (after (POST e rnd now req st) = after (commands e rnd now chatId text st)
           \<or> (\<exists>pending. after (POST e rnd now req st) = after (guessMode chatId text pending st))))"
  by (auto simp: POST_def after_def sender_def Let_def split: option.splits)

text \<open>
  C10: a request that does not come from chat \<open>B\<close> leaves the row of \<open>B\<close> in the table of
  users and the pending task of \<open>B\<close> as they were.
\<close>

theorem other_users_untouched:
  assumes "sender req \<noteq> Some B"
  shows "users (after (POST e rnd now req st)) B = users st B
       \<and> pendingTasks (after (POST e rnd now req st)) B = pendingTasks st B"
  using POST_cases [of e rnd now req st] assms
  by (auto simp: guessMode_other commands_other)

theorem other_users_untouched_witness:
  "users (after (POST sampleEnv 0 0 (textEvent sampleEnv 42 ''/click'')
      \<lparr>users = [42 \<mapsto> row 1, 7 \<mapsto> row 9], pendingTasks = [7 \<mapsto> guessing 2]\<rparr>)) 7 = Some (row 9)
   \<and> pendingTasks (after (POST sampleEnv 0 0 (textEvent sampleEnv 42 ''/click'')
      \<lparr>users = [42 \<mapsto> row 1, 7 \<mapsto> row 9], pendingTasks = [7 \<mapsto> guessing 2]\<rparr>)) 7
     = Some (guessing 2)
   \<and> users (after (POST sampleEnv 0 0 (textEvent sampleEnv 42 ''/click'')
      \<lparr>users = [42 \<mapsto> row 1, 7 \<mapsto> row 9], pendingTasks = [7 \<mapsto> guessing 2]\<rparr>)) 42 = Some (row 2)"
proof -
  let ?st = "\<lparr>users = [42 \<mapsto> row 1, 7 \<mapsto> row 9], pendingTasks = [7 \<mapsto> guessing 2]\<rparr>"
  have s: "sender (textEvent sampleEnv 42 ''/click'') \<noteq> Some 7"
    by (simp add: sender_def textEvent_def)
  have "users (after (POST sampleEnv 0 0 (textEvent sampleEnv 42 ''/click'') ?st)) 42 = Some (row 2)"
    by (simp add: POST_textEvent commands_def startsWith_def updatePoints_def getUser_def
        pointsOrZero_def updateRow_def after_def Let_def)
  then show ?thesis
    using other_users_untouched [OF s, of sampleEnv 0 0 ?st] by simp
qed

section \<open>Balances along a run\<close>

lemma guessMode_users:
  "users (after (guessMode chatId text pending st)) = users st
   \<or> users (after (guessMode chatId text pending st)) = snd (updatePoints chatId 2 (users st))"
  by (auto simp: guessMode_def after_def split_beta split: option.splits)

lemma commands_users:
  "users (after (commands e rnd now chatId text st)) = users st
   \<or> users (after (commands e rnd now chatId text st)) = snd (ensureUser now chatId (users st))
   \<or> (\<exists>d \<in> {1, 3, 5}.
        users (after (commands e rnd now chatId text st)) = snd (updatePoints chatId d (users st)))"
  by (auto simp: commands_def after_def Let_def split_beta)

lemma POST_users:
  "users (after (POST e rnd now req st)) = users st
   \<or> (\<exists>chatId. users (after (POST e rnd now req st)) = snd (ensureUser now chatId (users st)))
   \<or> (\<exists>chatId. \<exists>d \<in> {1, 2, 3, 5}.
        users (after (POST e rnd now req st)) = snd (updatePoints chatId d (users st)))"
proof -
  consider "after (POST e rnd now req st) = st"
    | chatId tx where "after (POST e rnd now req st) = after (commands e rnd now chatId tx st)"
    | chatId tx pending where
      "after (POST e rnd now req st) = after (guessMode chatId tx pending st)"
    using POST_cases [of e rnd now req st] by blast
  then show ?thesis
  proof cases
    case 1
    then show ?thesis by simp
  next
    case 2
    with commands_users [of e rnd now chatId tx st] show ?thesis
      by (simp only:) blast
  next
    case 3
    with guessMode_users [of chatId tx pending st] show ?thesis
      by (simp only:) blast
  qed
qed

lemma ensureUser_points:
  "pointsOrZero (snd (ensureUser now chatId tbl) u) = pointsOrZero (tbl u)"
  by (simp add: ensureUser_def createUser_def getUser_def pointsOrZero_def Let_def
      split: option.splits)

lemma updatePoints_points:
  "pointsOrZero (snd (updatePoints chatId d tbl) u) = pointsOrZero (tbl u)
   \<or> pointsOrZero (snd (updatePoints chatId d tbl) u) = pointsOrZero (tbl u) + d"
  by (simp add: updatePoints_def updateRow_def getUser_def pointsOrZero_def Let_def
      split: option.splits)

lemma POST_balance:
  "balance (after (POST e rnd now req st)) u - balance st u \<in> {0, 1, 2, 3, 5}"
proof -
  consider "users (after (POST e rnd now req st)) = users st"
    | chatId where "users (after (POST e rnd now req st)) = snd (ensureUser now chatId (users st))"
    | chatId d where "d \<in> {1, 2, 3, 5}"
      "users (after (POST e rnd now req st)) = snd (updatePoints chatId d (users st))"
    using POST_users [of e rnd now req st] by blast
  then show ?thesis
  proof cases
    case 1
    then show ?thesis by (simp add: balance_def getUser_def)
  next
    case 2
    then show ?thesis by (simp add: balance_def getUser_def ensureUser_points)
  next
    case 3
    with updatePoints_points [of chatId d "users st" u] show ?thesis
      by (auto simp: balance_def getUser_def)
  qed
qed

lemma run_append: "run e (xs @ ys) st = run e ys (run e xs st)"
  by (induction xs arbitrary: st) auto

lemma run_take_Suc:
  assumes "k < length evs"
  shows "run e (take (Suc k) evs) st =
     after (POST e (fst (evs ! k)) (fst (snd (evs ! k))) (snd (snd (evs ! k)))
              (run e (take k evs) st))"
proof -
  obtain rnd now req where "evs ! k = (rnd, now, req)"
    by (cases "evs ! k") auto
  then show ?thesis
    using assms by (simp add: take_Suc_conv_app_nth run_append)
qed

lemma run_balance_mono: "balance st u \<le> balance (run e evs st) u"
proof (induction evs arbitrary: st)
  case Nil
  show ?case by simp
next
  case (Cons ev evs)
  obtain rnd now req where ev: "ev = (rnd, now, req)"
    by (cases ev) auto
  have "balance st u \<le> balance (after (POST e rnd now req st)) u"
    using POST_balance [of e rnd now req st u] by auto
  also have "\<dots> \<le> balance (run e evs (after (POST e rnd now req st))) u"
    by (rule Cons.IH)
  finally show ?case
    by (simp add: ev)
qed

text \<open>
  C4: start from the fresh state and handle any finite sequence of requests (of any users,
  with any content). After every prefix the balance of every user is at least 0, and each
  request changes a balance by 0, 1, 2, 3 or 5.
\<close>

theorem balance_never_negative:
  "(\<forall>k \<le> length evs. 0 \<le> balance (run e (take k evs) fresh) u)
   \<and> (\<forall>k < length evs.
        balance (run e (take (Suc k) evs) fresh) u - balance (run e (take k evs) fresh) u
          \<in> {0, 1, 2, 3, 5})"
proof (intro conjI allI impI)
  fix k
  have "balance fresh u = 0"
    by (simp add: balance_def fresh_def getUser_def pointsOrZero_def)
  then show "0 \<le> balance (run e (take k evs) fresh) u"
    using run_balance_mono [of fresh u e "take k evs"] by simp
next
  fix k
  assume "k < length evs"
  then show "balance (run e (take (Suc k) evs) fresh) u - balance (run e (take k evs) fresh) u
          \<in> {0, 1, 2, 3, 5}"
    by (simp only: run_take_Suc POST_balance)
qed

theorem balance_never_negative_witness:
  "(4::nat) \<le> length (textEvents sampleEnv 42
        [(0, 0, ''/start''), (0, 0, ''/click''), (0, 0, ''/video''), (0, 0, ''/done video'')])
   \<and> 0 \<le> balance (run sampleEnv (take 4 (textEvents sampleEnv 42
        [(0, 0, ''/start''), (0, 0, ''/click''), (0, 0, ''/video''), (0, 0, ''/done video'')])) fresh) 42
   \<and> balance (run sampleEnv (take 4 (textEvents sampleEnv 42
        [(0, 0, ''/start''), (0, 0, ''/click''), (0, 0, ''/video''), (0, 0, ''/done video'')])) fresh) 42
      = 6
   \<and> balance (run sampleEnv (take (Suc 3) (textEvents sampleEnv 42
        [(0, 0, ''/start''), (0, 0, ''/click''), (0, 0, ''/video''), (0, 0, ''/done video'')])) fresh) 42
      - balance (run sampleEnv (take 3 (textEvents sampleEnv 42
        [(0, 0, ''/start''), (0, 0, ''/click''), (0, 0, ''/video''), (0, 0, ''/done video'')])) fresh) 42
      \<in> {0, 1, 2, 3, 5}"
proof -
  let ?evs = "textEvents sampleEnv 42
        [(0, 0, ''/start''), (0, 0, ''/click''), (0, 0, ''/video''), (0, 0, ''/done video'')]"
  have l: "(4::nat) \<le> length ?evs" and l': "(3::nat) < length ?evs"
    by (simp_all add: textEvents_def)
  have v: "balance (run sampleEnv (take 4 ?evs) fresh) 42 = 6"
    by (simp add: textEvents_def POST_textEvent fresh_def commands_def startsWith_def
        updatePoints_def getUser_def pointsOrZero_def updateRow_def ensureUser_def
        createUser_def after_def balance_def Let_def)
  from balance_never_negative [of ?evs sampleEnv 42] l l'
  have "0 \<le> balance (run sampleEnv (take 4 ?evs) fresh) 42"
    and "balance (run sampleEnv (take (Suc 3) ?evs) fresh) 42
          - balance (run sampleEnv (take 3 ?evs) fresh) 42 \<in> {0, 1, 2, 3, 5}"
    by blast+
  with l v show ?thesis
    by blast
qed

section \<open>\<open>/start\<close> and \<open>/points\<close>\<close>

lemma ensureUser_reads:
  "pointsOrZero (fst (ensureUser now chatId tbl)) = pointsOrZero (tbl chatId)"
  by (simp add: ensureUser_def createUser_def getUser_def pointsOrZero_def Let_def
      split: option.splits)

lemma start_points_step:
  assumes "chatId \<noteq> 0"
    and "startsWith (trim t) ''/start'' \<or> startsWith (trim t) ''/points''"
  shows "sent (POST e rnd now (textEvent e chatId t) st) =
           Some (chatId,
             if map_option task_type (pendingTasks st chatId) = Some guess then NumberPlease
             else if startsWith (trim t) ''/start'' then Welcome (balance st chatId)
             else YouHave (balance st chatId))"
    and "pendingTasks (after (POST e rnd now (textEvent e chatId t) st)) = pendingTasks st"
    and "balance (after (POST e rnd now (textEvent e chatId t) st)) u = balance st u"
proof -
  show "sent (POST e rnd now (textEvent e chatId t) st) =
           Some (chatId,
             if map_option task_type (pendingTasks st chatId) = Some guess then NumberPlease
             else if startsWith (trim t) ''/start'' then Welcome (balance st chatId)
             else YouHave (balance st chatId))"
  proof (cases "map_option task_type (pendingTasks st chatId) = Some guess")
    case True
    then obtain pending where p: "pendingTasks st chatId = Some pending" "task_type pending = guess"
      by auto
    from assms(2) have "parseInt10 (trim t) = None"
      by (auto simp: startsWith_Cons intro: parseInt10_slash)
    with p True assms(1) show ?thesis
      by (simp add: POST_textEvent guessMode_def sent_def)
  next
    case False
    with assms show ?thesis
      by (auto simp: no_guess_dispatch commands_def sent_def split_beta ensureUser_reads
          balance_def getUser_def)
  qed
  show "pendingTasks (after (POST e rnd now (textEvent e chatId t) st)) = pendingTasks st"
  proof (cases "map_option task_type (pendingTasks st chatId) = Some guess")
    case True
    then obtain pending where p: "pendingTasks st chatId = Some pending" "task_type pending = guess"
      by auto
    from assms(2) have "parseInt10 (trim t) = None"
      by (auto simp: startsWith_Cons intro: parseInt10_slash)
    with p assms(1) show ?thesis
      by (simp add: POST_textEvent guessMode_def after_def)
  next
    case False
    with assms show ?thesis
      by (auto simp: no_guess_dispatch commands_def after_def split_beta)
  qed
  show "balance (after (POST e rnd now (textEvent e chatId t) st)) u = balance st u"
  proof (cases "map_option task_type (pendingTasks st chatId) = Some guess")
    case True
    then obtain pending where p: "pendingTasks st chatId = Some pending" "task_type pending = guess"
      by auto
    from assms(2) have "parseInt10 (trim t) = None"
      by (auto simp: startsWith_Cons intro: parseInt10_slash)
    with p assms(1) show ?thesis
      by (simp add: POST_textEvent guessMode_def after_def)
  next
    case False
    with assms show ?thesis
      by (auto simp: no_guess_dispatch commands_def after_def split_beta balance_def
          getUser_def ensureUser_points)
  qed
qed

lemma start_points_run:
  assumes "chatId \<noteq> 0"
    and "\<forall>(rnd, now, t) \<in> set ts.
           startsWith (trim t) ''/start'' \<or> startsWith (trim t) ''/points''"
  shows "pendingTasks (run e (textEvents e chatId ts) st) = pendingTasks st
       \<and> balance (run e (textEvents e chatId ts) st) u = balance st u"
  using assms(2)
proof (induction ts arbitrary: st)
  case Nil
  show ?case by (simp add: textEvents_def)
next
  case (Cons x ts)
  obtain rnd now t where x: "x = (rnd, now, t)"
    by (cases x) auto
  with Cons.prems have t: "startsWith (trim t) ''/start'' \<or> startsWith (trim t) ''/points''"
    by simp
  from Cons.prems have rest: "\<forall>(rnd, now, t) \<in> set ts.
           startsWith (trim t) ''/start'' \<or> startsWith (trim t) ''/points''"
    by simp
  have "run e (textEvents e chatId (x # ts)) st
      = run e (textEvents e chatId ts) (after (POST e rnd now (textEvent e chatId t) st))"
    by (simp add: textEvents_def x)
  then show ?case
    using Cons.IH [OF rest, of "after (POST e rnd now (textEvent e chatId t) st)"]
      start_points_step(2,3) [OF assms(1) t, of e rnd now st]
    by simp
qed

text \<open>
  C9: let a user send any number of texts that begin with \<open>/start\<close> or \<open>/points\<close>, with
  nothing else in between. The balance of every user and the pending tasks are the same
  after the run as before it, and each reply reports the balance of the beginning (or is,
  each time, the numeric guidance when a guess is pending).
\<close>

theorem start_points_idempotent:
  assumes "chatId \<noteq> 0"
    and "\<forall>(rnd, now, t) \<in> set ts.
           startsWith (trim t) ''/start'' \<or> startsWith (trim t) ''/points''"
  shows "balance (run e (textEvents e chatId ts) st) u = balance st u
       \<and> pendingTasks (run e (textEvents e chatId ts) st) = pendingTasks st
       \<and> (\<forall>k < length ts.
            sent (POST e (fst (ts ! k)) (fst (snd (ts ! k)))
                    (textEvent e chatId (snd (snd (ts ! k))))
                    (run e (textEvents e chatId (take k ts)) st))
              = Some (chatId,
                  if map_option task_type (pendingTasks st chatId) = Some guess then NumberPlease
                  else if startsWith (trim (snd (snd (ts ! k)))) ''/start''
                       then Welcome (balance st chatId)
                       else YouHave (balance st chatId)))"
proof (intro conjI allI impI)
  show "balance (run e (textEvents e chatId ts) st) u = balance st u"
    and "pendingTasks (run e (textEvents e chatId ts) st) = pendingTasks st"
    using start_points_run [OF assms] by simp_all
next
  fix k
  assume k: "k < length ts"
  let ?st = "run e (textEvents e chatId (take k ts)) st"
  have "set (take k ts) \<subseteq> set ts"
    by (rule set_take_subset)
  with assms(2) have "\<forall>(rnd, now, t) \<in> set (take k ts).
           startsWith (trim t) ''/start'' \<or> startsWith (trim t) ''/points''"
    by blast
  from start_points_run [OF assms(1) this]
  have same: "pendingTasks ?st = pendingTasks st" "balance ?st chatId = balance st chatId"
    by simp_all
  from k have "ts ! k \<in> set ts"
    by simp
  with assms(2) have "startsWith (trim (snd (snd (ts ! k)))) ''/start''
      \<or> startsWith (trim (snd (snd (ts ! k)))) ''/points''"
    by (auto simp: split_beta)
  from start_points_step(1) [OF assms(1) this, of e "fst (ts ! k)" "fst (snd (ts ! k))" ?st]
  show "sent (POST e (fst (ts ! k)) (fst (snd (ts ! k)))
                    (textEvent e chatId (snd (snd (ts ! k)))) ?st)
              = Some (chatId,
                  if map_option task_type (pendingTasks st chatId) = Some guess then NumberPlease
                  else if startsWith (trim (snd (snd (ts ! k)))) ''/start''
                       then Welcome (balance st chatId)
                       else YouHave (balance st chatId))"
    by (simp add: same)
qed

theorem start_points_idempotent_witness:
  "balance (run sampleEnv (textEvents sampleEnv 42
        [(0, 1, ''/start''), (0, 2, ''/points''), (0, 3, ''/start'')])
      \<lparr>users = [42 \<mapsto> row 4], pendingTasks = [42 \<mapsto> waiting video]\<rparr>) 42 = 4
   \<and> pendingTasks (run sampleEnv (textEvents sampleEnv 42
        [(0, 1, ''/start''), (0, 2, ''/points''), (0, 3, ''/start'')])
      \<lparr>users = [42 \<mapsto> row 4], pendingTasks = [42 \<mapsto> waiting video]\<rparr>) 42
     = Some (waiting video)
   \<and> sent (POST sampleEnv 0 2 (textEvent sampleEnv 42 ''/points'')
        (run sampleEnv (textEvents sampleEnv 42 [(0, 1, ''/start'')])
           \<lparr>users = [42 \<mapsto> row 4], pendingTasks = [42 \<mapsto> waiting video]\<rparr>))
     = Some (42, YouHave 4)"
proof -
  let ?ts = "[(0, 1, ''/start''), (0, 2, ''/points''), (0, 3, ''/start'')] :: (rat \<times> nat \<times> string) list"
  let ?st = "\<lparr>users = [42 \<mapsto> row 4], pendingTasks = [42 \<mapsto> waiting video]\<rparr>"
  have c: "(42::int) \<noteq> 0"
    by simp
  have a: "\<forall>(rnd, now, t) \<in> set ?ts.
      startsWith (trim t) ''/start'' \<or> startsWith (trim t) ''/points''"
    by (simp add: startsWith_def)
  have b: "balance ?st 42 = 4"
    by (simp add: balance_def getUser_def pointsOrZero_def)
  have k: "(1::nat) < length ?ts"
    by simp
  note w = start_points_idempotent [OF c a, of sampleEnv ?st 42]
  have "balance (run sampleEnv (textEvents sampleEnv 42 ?ts) ?st) 42 = balance ?st 42"
    using w by blast
  moreover have "pendingTasks (run sampleEnv (textEvents sampleEnv 42 ?ts) ?st) = pendingTasks ?st"
    using w by blast
  moreover have "sent (POST sampleEnv (fst (?ts ! 1)) (fst (snd (?ts ! 1)))
                    (textEvent sampleEnv 42 (snd (snd (?ts ! 1))))
                    (run sampleEnv (textEvents sampleEnv 42 (take 1 ?ts)) ?st))
              = Some (42,
                  if map_option task_type (pendingTasks ?st 42) = Some guess then NumberPlease
                  else if startsWith (trim (snd (snd (?ts ! 1)))) ''/start''
                       then Welcome (balance ?st 42)
                       else YouHave (balance ?st 42))"
    using w k by blast
  ultimately show ?thesis
    using b by (simp add: startsWith_def)
qed

section \<open>Two calls of \<open>updatePoints\<close> at the same time\<close>

lemma callStep_twice:
  "(case callStep (Called telegramId delta) tbl of (c, tbl') \<Rightarrow> callStep c tbl')
     = (Returned (fst (updatePoints telegramId delta tbl)),
        snd (updatePoints telegramId delta tbl))"
  by (simp add: updatePoints_def Let_def)

text \<open>
  C1: two calls \<open>updatePoints(42, +1)\<close> are running for a user whose row holds 0 points.
  When both read before either writes (the schedule 0, 1, 0, 1), both compute and write 1:
  both return, the row holds 1, and one increment is lost. When the first call finishes
  before the second starts (the schedule 0, 0, 1, 1) the row holds 2.
\<close>

theorem concurrent_updates_lose_one:
  "schedule [0, 1, 0, 1] ([Called 42 1, Called 42 1], [42 \<mapsto> row 0])
     = ([Returned 1, Returned 1], [42 \<mapsto> row 1])
   \<and> schedule [0, 0, 1, 1] ([Called 42 1, Called 42 1], [42 \<mapsto> row 0])
     = ([Returned 1, Returned 2], [42 \<mapsto> row 2])"
  by (simp add: getUser_def pointsOrZero_def updateRow_def)

end
